theory Spec2Isabelle
  imports Main
begin

section \<open>playwright-mapper: the mapping and selection engine\<close>

text \<open>
  A shallow embedding of \<^verbatim>\<open>src/index.js\<close> and of the two commands of
  \<^verbatim>\<open>bin/cli.js\<close> that drive it. A JavaScript string is a \<open>string\<close>, the UTF-8
  bytes of its text; arrays are lists, the \<^verbatim>\<open>Set\<close> of tags is a list in insertion
  order without repetitions, and the mapping object is the list of its
  \<^verbatim>\<open>Object.entries\<close>.
\<close>

subsection \<open>Strings and arrays\<close>

text \<open>\<^verbatim>\<open>String.prototype.startsWith\<close>: the first \<open>length path\<close> characters of the file
  are compared with the search string.\<close>

definition startsWith :: "string \<Rightarrow> string \<Rightarrow> bool" where
  "startsWith file path = (take (length path) file = path)"

text \<open>\<^verbatim>\<open>Array.prototype.join\<close>: the empty array gives the empty string, and the
  separator stands between neighbours only.\<close>

fun join :: "string \<Rightarrow> string list \<Rightarrow> string" where
  "join sep [] = []"
| "join sep [x] = x"
| "join sep (x # y # ys) = x @ sep @ join sep (y # ys)"

text \<open>\<^verbatim>\<open>Array.prototype.includes\<close> on an array of strings.\<close>

definition array_includes :: "string list \<Rightarrow> string \<Rightarrow> bool" where
  "array_includes xs x = list_ex (\<lambda>y. y = x) xs"

subsection \<open>computeGrepPattern\<close>

text \<open>The options object. A property that is absent (\<^verbatim>\<open>undefined\<close>) is \<open>None\<close>; the
  destructuring default \<^verbatim>\<open>{ addBaseline = true }\<close> applies to it. A call that omits
  the argument receives \<^verbatim>\<open>{}\<close>, which is \<open>no_options\<close>.\<close>

record options =
  addBaseline :: "bool option"

definition no_options :: options where
  "no_options = \<lparr>addBaseline = None\<rparr>"

definition baseline_tag :: string where
  "baseline_tag = ''@baseline''"

text \<open>The array \<^verbatim>\<open>allTags\<close> as it stands after lines 106 to 111: a copy of the tags,
  with the baseline tag pushed when it is enabled and not yet included.\<close>

definition allTags :: "string list \<Rightarrow> options \<Rightarrow> string list" where
  "allTags tags opts =
     (let addB = (case addBaseline opts of None \<Rightarrow> True | Some b \<Rightarrow> b);
          copy = tags
      in if addB \<and> \<not> array_includes copy baseline_tag then copy @ [baseline_tag] else copy)"

definition computeGrepPattern :: "string list \<Rightarrow> options \<Rightarrow> string" where
  "computeGrepPattern tags opts =
     (let all = allTags tags opts
      in if length all = 0 then baseline_tag
         else ''('' @ join ''|'' all @ '')'')"

text \<open>The same function over an explicit store, for the question whether the caller's
  array is written to. A store holds the arrays by address; \<^verbatim>\<open>[...tags]\<close> allocates a
  fresh array holding the elements of \<open>tags\<close>, and \<^verbatim>\<open>push\<close> writes to the array at the
  address it is called on. A \<open>tags\<close> that is no array of the store is not iterable
  (a TypeError, \<open>None\<close>).\<close>

type_synonym store = "string list list"

definition spread_copy :: "store \<Rightarrow> nat \<Rightarrow> nat \<times> store" where
  "spread_copy s a = (length s, s @ [s ! a])"

definition array_push :: "store \<Rightarrow> nat \<Rightarrow> string \<Rightarrow> store" where
  "array_push s a x = s[a := s ! a @ [x]]"

definition computeGrepPattern_store ::
    "store \<Rightarrow> nat \<Rightarrow> options \<Rightarrow> (string \<times> store) option" where
  "computeGrepPattern_store s tags opts =
     (if \<not> tags < length s then None
      else
        let addB = (case addBaseline opts of None \<Rightarrow> True | Some b \<Rightarrow> b);
            (all, s1) = spread_copy s tags;
            s2 = (if addB \<and> \<not> array_includes (s1 ! all) baseline_tag
                  then array_push s1 all baseline_tag else s1)
        in if length (s2 ! all) = 0 then Some (baseline_tag, s2)
           else Some (''('' @ join ''|'' (s2 ! all) @ '')'', s2))"

subsection \<open>Effects: the trace of a call and how it ends\<close>

text \<open>An error object, with the two properties the code reads: \<^verbatim>\<open>message\<close> and
  \<^verbatim>\<open>status\<close> (absent on an error that \<^verbatim>\<open>new Error\<close> made, and on a failure to
  spawn).\<close>

record js_error =
  message :: string
  status :: "int option"

definition new_Error :: "string \<Rightarrow> js_error" where
  "new_Error msg = \<lparr>message = msg, status = None\<rparr>"

text \<open>What a call does to the world, in order: the commands it runs, the files it looks
  for and loads, and the lines it prints.\<close>

datatype event =
    Exec string
  | ExistsSync string
  | Require string
  | ConsoleLog string
  | ConsoleWarn string
  | ConsoleError string

text \<open>A call returns, throws, or ends the process (\<^verbatim>\<open>process.exit\<close>).\<close>

datatype 'a outcome = Return 'a | Throw js_error | Exit int

type_synonym 'a comp = "event list \<times> 'a outcome"

definition ret :: "'a \<Rightarrow> 'a comp" where
  "ret x = ([], Return x)"

definition throw :: "js_error \<Rightarrow> 'a comp" where
  "throw e = ([], Throw e)"

definition process_exit :: "int \<Rightarrow> 'a comp" where
  "process_exit c = ([], Exit c)"

text \<open>Sequencing: the second statement runs only when the first returned.\<close>

definition and_then :: "'a comp \<Rightarrow> ('a \<Rightarrow> 'b comp) \<Rightarrow> 'b comp" where
  "and_then m f =
     (case m of
        (t, Return x) \<Rightarrow> (case f x of (t', r) \<Rightarrow> (t @ t', r))
      | (t, Throw e) \<Rightarrow> (t, Throw e)
      | (t, Exit c) \<Rightarrow> (t, Exit c))"

text \<open>\<^verbatim>\<open>try { m } catch (error) { h }\<close>: the handler runs only when the block threw; an
  exit of the process is not caught.\<close>

definition try_catch :: "'a comp \<Rightarrow> (js_error \<Rightarrow> 'a comp) \<Rightarrow> 'a comp" where
  "try_catch m h =
     (case m of
        (t, Throw e) \<Rightarrow> (case h e of (t', r) \<Rightarrow> (t @ t', r))
      | (t, Return x) \<Rightarrow> (t, Return x)
      | (t, Exit c) \<Rightarrow> (t, Exit c))"

definition when_do :: "bool \<Rightarrow> unit comp \<Rightarrow> unit comp" where
  "when_do b m = (if b then m else ret ())"

definition console_log :: "string \<Rightarrow> unit comp" where
  "console_log line = ([ConsoleLog line], Return ())"

definition console_warn :: "string \<Rightarrow> unit comp" where
  "console_warn line = ([ConsoleWarn line], Return ())"

definition console_error :: "string \<Rightarrow> unit comp" where
  "console_error line = ([ConsoleError line], Return ())"

definition console_logs :: "string list \<Rightarrow> unit comp" where
  "console_logs ls = (map ConsoleLog ls, Return ())"

subsection \<open>The environment\<close>

text \<open>What a module exports: its \<^verbatim>\<open>default\<close> property when it has one, and the table of
  its own entries.\<close>

type_synonym mappings = "(string \<times> string list) list"

record module_exports =
  default_export :: "mappings option"
  own_entries :: mappings

text \<open>The parts of Node the code calls, as parameters: \<^verbatim>\<open>execSync\<close> gives the output of
  a command or throws, \<^verbatim>\<open>fs.existsSync\<close> answers for a path, \<^verbatim>\<open>require\<close> (after the
  cache entry is deleted) loads a module or throws, \<open>path_resolve\<close> is
  \<^verbatim>\<open>path.resolve(process.cwd(), file)\<close>, and \<open>MAPPER_DISABLE\<close> is the variable of
  \<^verbatim>\<open>process.env\<close>.\<close>

record env =
  execSync :: "string \<Rightarrow> js_error + string"
  existsSync :: "string \<Rightarrow> bool"
  require_module :: "string \<Rightarrow> js_error + module_exports"
  path_resolve :: "string \<Rightarrow> string"
  MAPPER_DISABLE :: "string option"

definition exec :: "env \<Rightarrow> string \<Rightarrow> string comp" where
  "exec E cmd =
     ([Exec cmd], case execSync E cmd of Inl e \<Rightarrow> Throw e | Inr out \<Rightarrow> Return out)"

definition fs_existsSync :: "env \<Rightarrow> string \<Rightarrow> bool comp" where
  "fs_existsSync E p = ([ExistsSync p], Return (existsSync E p))"

definition require_fresh :: "env \<Rightarrow> string \<Rightarrow> module_exports comp" where
  "require_fresh E p =
     ([Require p], case require_module E p of Inl e \<Rightarrow> Throw e | Inr m \<Rightarrow> Return m)"

subsection \<open>getChangedFiles\<close>

text \<open>\<^verbatim>\<open>String.prototype.trim\<close> removes the white space and the line terminators of
  ECMAScript from both ends. \<open>white_space\<close> lists them, each as its UTF-8 bytes: U+0009
  to U+000D, U+0020, U+00A0, U+1680, U+2000 to U+200A, U+2028, U+2029, U+202F, U+205F,
  U+3000 and U+FEFF. \<open>strip_leading\<close> removes such characters from the front as long
  as there is one; the end is the front of the reversed string.\<close>

definition white_space :: "string list" where
  "white_space =
     [[CHR 0x09], [CHR 0x0A], [CHR 0x0B], [CHR 0x0C], [CHR 0x0D], [CHR 0x20],
      [CHR 0xC2, CHR 0xA0],
      [CHR 0xE1, CHR 0x9A, CHR 0x80],
      [CHR 0xE2, CHR 0x80, CHR 0x80], [CHR 0xE2, CHR 0x80, CHR 0x81],
      [CHR 0xE2, CHR 0x80, CHR 0x82], [CHR 0xE2, CHR 0x80, CHR 0x83],
      [CHR 0xE2, CHR 0x80, CHR 0x84], [CHR 0xE2, CHR 0x80, CHR 0x85],
      [CHR 0xE2, CHR 0x80, CHR 0x86], [CHR 0xE2, CHR 0x80, CHR 0x87],
      [CHR 0xE2, CHR 0x80, CHR 0x88], [CHR 0xE2, CHR 0x80, CHR 0x89],
      [CHR 0xE2, CHR 0x80, CHR 0x8A],
      [CHR 0xE2, CHR 0x80, CHR 0xA8], [CHR 0xE2, CHR 0x80, CHR 0xA9],
      [CHR 0xE2, CHR 0x80, CHR 0xAF],
      [CHR 0xE2, CHR 0x81, CHR 0x9F],
      [CHR 0xE3, CHR 0x80, CHR 0x80],
      [CHR 0xEF, CHR 0xBB, CHR 0xBF]]"

function strip_leading :: "string list \<Rightarrow> string \<Rightarrow> string" where
  "strip_leading ws s =
     (case find (\<lambda>w. w \<noteq> [] \<and> startsWith s w) ws of
        None \<Rightarrow> s
      | Some w \<Rightarrow> strip_leading ws (drop (length w) s))"
  by pat_completeness auto
termination
proof (relation "measure (\<lambda>(ws, s). length s)")
  show "wf (measure (\<lambda>(ws, s). length s))" by simp
next
  fix ws :: "string list" and s w :: string
  assume "find (\<lambda>w. w \<noteq> [] \<and> startsWith s w) ws = Some w"
  then have "w \<noteq> []" and "startsWith s w"
    by (auto simp: find_Some_iff)
  then have "s \<noteq> []" by (auto simp: startsWith_def)
  with \<open>w \<noteq> []\<close> show "((ws, drop (length w) s), (ws, s)) \<in> measure (\<lambda>(ws, s). length s)"
    by simp
qed

declare strip_leading.simps [simp del]

definition trim :: "string \<Rightarrow> string" where
  "trim s = rev (strip_leading (map rev white_space) (rev (strip_leading white_space s)))"

text \<open>\<^verbatim>\<open>String.prototype.split\<close> at a one-character separator (the empty string splits
  into one empty piece).\<close>

fun split_on :: "char \<Rightarrow> string \<Rightarrow> string list" where
  "split_on c [] = [[]]"
| "split_on c (x # xs) =
     (if x = c then [] # split_on c xs
      else (case split_on c xs of [] \<Rightarrow> [[x]] | y # ys \<Rightarrow> (x # y) # ys))"

definition getChangedFiles :: "env \<Rightarrow> string \<Rightarrow> bool \<Rightarrow> string list comp" where
  "getChangedFiles E baseBranch verbose =
     try_catch
       (and_then (exec E ''git rev-parse --abbrev-ref HEAD'') (\<lambda>out.
        let currentBranch = trim out in
        and_then (when_do verbose (console_logs
                    [''[mapper] Current branch: '' @ currentBranch,
                     ''[mapper] Base branch: '' @ baseBranch])) (\<lambda>_.
        let diffCommand = ''git diff --name-only '' @ baseBranch @ ''...HEAD'' in
        and_then (exec E diffCommand) (\<lambda>out.
        let output = trim out in
        if output = [] then
          and_then (when_do verbose (console_log ''[mapper] No changed files detected''))
            (\<lambda>_. ret [])
        else
          let files = filter (\<lambda>file. file \<noteq> []) (split_on (CHR 0x0A) output) in
          and_then (when_do verbose (console_logs
                      (''[mapper] Changed files:'' # map (\<lambda>file. '' - '' @ file) files)))
            (\<lambda>_. ret files)))))
       (\<lambda>error.
        and_then (when_do verbose (console_warn
                    (''[mapper] Error detecting changed files: '' @ message error)))
          (\<lambda>_. ret []))"

subsection \<open>loadMappings\<close>

definition loadMappings :: "env \<Rightarrow> string \<Rightarrow> mappings comp" where
  "loadMappings E mappingsFile =
     (let resolvedPath = path_resolve E mappingsFile in
      and_then (fs_existsSync E resolvedPath) (\<lambda>found.
      if \<not> found then throw (new_Error (''Mappings file not found: '' @ resolvedPath))
      else
        and_then (require_fresh E resolvedPath) (\<lambda>m.
        ret (case default_export m of Some d \<Rightarrow> d | None \<Rightarrow> own_entries m))))"

subsection \<open>getMappedTags\<close>

text \<open>\<^verbatim>\<open>Set.prototype.add\<close>: a set keeps its elements in the order they were first
  added.\<close>

definition set_add :: "string \<Rightarrow> string list \<Rightarrow> string list" where
  "set_add tag tags = (if List.member tags tag then tags else tags @ [tag])"

text \<open>The characters between file and tag in the diagnostic line, as the bytes of the
  source file.\<close>

definition log_arrow :: string where
  "log_arrow =
     [CHR 0x20, CHR 0xC3, CHR 0xA2, CHR 0xE2, CHR 0x80, CHR 0xA0, CHR 0xE2, CHR 0x80,
      CHR 0x99, CHR 0x20]"

text \<open>The inner loop over \<^verbatim>\<open>Object.entries(mappings)\<close> for one file, and the
  \<^verbatim>\<open>forEach\<close> over the changed files; the set of tags is threaded through.\<close>

fun for_entries :: "bool \<Rightarrow> string \<Rightarrow> mappings \<Rightarrow> string list \<Rightarrow> string list comp" where
  "for_entries verbose file [] tags = ret tags"
| "for_entries verbose file ((tag, paths) # rest) tags =
     (if list_ex (\<lambda>path. startsWith file path) paths then
        and_then (when_do verbose (console_log (''[mapper] '' @ file @ log_arrow @ tag)))
          (\<lambda>_. for_entries verbose file rest (set_add tag tags))
      else for_entries verbose file rest tags)"

fun for_files :: "bool \<Rightarrow> mappings \<Rightarrow> string list \<Rightarrow> string list \<Rightarrow> string list comp" where
  "for_files verbose ms [] tags = ret tags"
| "for_files verbose ms (file # files) tags =
     and_then (for_entries verbose file ms tags) (\<lambda>tags'. for_files verbose ms files tags')"

text \<open>The second argument is a path (a string) or the mappings object itself.\<close>

datatype mappings_arg = MappingsFile string | MappingsObject mappings

definition getMappedTags ::
    "env \<Rightarrow> string list \<Rightarrow> mappings_arg \<Rightarrow> bool \<Rightarrow> string list comp" where
  "getMappedTags E changedFiles mappingsOrFile verbose =
     and_then
       (case mappingsOrFile of
          MappingsFile f \<Rightarrow> loadMappings E f
        | MappingsObject ms \<Rightarrow> ret ms)
       (\<lambda>ms. for_files verbose ms changedFiles [])"

text \<open>The tags of the entries that a file matches, in the order of the entries: what
  one pass of the inner loop offers to the set.\<close>

definition matching_tags :: "string \<Rightarrow> mappings \<Rightarrow> string list" where
  "matching_tags f ms =
     map fst (filter (\<lambda>entry. list_ex (\<lambda>path. startsWith f path) (snd entry)) ms)"

subsection \<open>runPlaywright\<close>

text \<open>\<^verbatim>\<open>error.status || 1\<close>: an absent status and the status 0 are falsy.\<close>

definition status_or_1 :: "int option \<Rightarrow> int" where
  "status_or_1 st = (case st of None \<Rightarrow> 1 | Some c \<Rightarrow> if c = 0 then 1 else c)"

definition playwright_command :: "string \<Rightarrow> string list \<Rightarrow> string" where
  "playwright_command grepPattern additionalArgs =
     join '' ''
       ([''npx'', ''playwright'', ''test'', ''-g'', [CHR 0x22] @ grepPattern @ [CHR 0x22]]
        @ additionalArgs)"

definition runPlaywright :: "env \<Rightarrow> string \<Rightarrow> string list \<Rightarrow> int comp" where
  "runPlaywright E grepPattern additionalArgs =
     (let args = playwright_command grepPattern additionalArgs in
      try_catch
        (and_then (exec E args) (\<lambda>_. ret 0))
        (\<lambda>error. ret (status_or_1 (status error))))"

subsection \<open>The list and run commands of the CLI\<close>

record config =
  mappingsFile :: string
  baseBranch :: string
  config_addBaseline :: bool
  verbose :: bool

definition show_bool :: "bool \<Rightarrow> string" where
  "show_bool b = (if b then ''true'' else ''false'')"

definition tags_or_none :: "string list \<Rightarrow> string" where
  "tags_or_none tags = (let j = join '', '' tags in if j = [] then ''none'' else j)"

definition configuration_lines :: "config \<Rightarrow> string list" where
  "configuration_lines cfg =
     [CHR 0x0A # ''[mapper] Configuration:'',
      ''  Base branch: '' @ baseBranch cfg,
      ''  Mappings file: '' @ mappingsFile cfg,
      ''  Add baseline: '' @ show_bool (config_addBaseline cfg)]"

definition listCommand :: "env \<Rightarrow> config \<Rightarrow> unit comp" where
  "listCommand E cfg =
     and_then (console_logs (configuration_lines cfg)) (\<lambda>_.
     and_then (getChangedFiles E (baseBranch cfg) True) (\<lambda>changedFiles.
     if length changedFiles = 0 then
       console_logs
         [CHR 0x0A # ''[mapper] No changed files detected'',
          ''[mapper] Would run: @baseline only'']
     else
       and_then (console_log []) (\<lambda>_.
       try_catch
         (and_then (loadMappings E (mappingsFile cfg)) (\<lambda>ms.
          and_then (getMappedTags E changedFiles (MappingsObject ms) True) (\<lambda>tags.
          let grepPattern =
                computeGrepPattern tags \<lparr>addBaseline = Some (config_addBaseline cfg)\<rparr> in
          console_logs
            [CHR 0x0A # ''[mapper] Mapped test tags: '' @ tags_or_none tags,
             ''[mapper] Grep pattern: '' @ grepPattern,
             ''[mapper] Would run: npx playwright test -g '' @ [CHR 0x22] @ grepPattern
               @ [CHR 0x22]])))
         (\<lambda>error.
          and_then (console_error (''[mapper] Error: '' @ message error))
            (\<lambda>_. process_exit 1)))))"

definition runCommand :: "env \<Rightarrow> config \<Rightarrow> string list \<Rightarrow> int comp" where
  "runCommand E cfg playwrightArgs =
     (if MAPPER_DISABLE E = Some ''1'' then
        and_then (console_log ''[mapper] MAPPER_DISABLE=1, running all tests'')
          (\<lambda>_. runPlaywright E ''.*'' playwrightArgs)
      else
        and_then (when_do (verbose cfg) (console_logs (configuration_lines cfg @ [[]]))) (\<lambda>_.
        and_then (getChangedFiles E (baseBranch cfg) (verbose cfg)) (\<lambda>changedFiles.
        if length changedFiles = 0 then
          and_then (when_do (verbose cfg) (console_log
                      ''[mapper] No changes detected, running @baseline tests only''))
            (\<lambda>_. runPlaywright E ''@baseline'' playwrightArgs)
        else
          try_catch
            (and_then (loadMappings E (mappingsFile cfg)) (\<lambda>ms.
             and_then (getMappedTags E changedFiles (MappingsObject ms) (verbose cfg)) (\<lambda>tags.
             let grepPattern =
                   computeGrepPattern tags \<lparr>addBaseline = Some (config_addBaseline cfg)\<rparr> in
             and_then (when_do (verbose cfg) (console_logs
                         [CHR 0x0A # ''[mapper] Mapped test tags: '' @ tags_or_none tags,
                          ''[mapper] Running: npx playwright test -g '' @ [CHR 0x22]
                            @ grepPattern @ [CHR 0x22],
                          []]))
               (\<lambda>_. runPlaywright E grepPattern playwrightArgs))))
            (\<lambda>error.
             and_then (console_error (''[mapper] Error: '' @ message error)) (\<lambda>_.
             and_then (console_error ''[mapper] Falling back to running all tests'') (\<lambda>_.
             runPlaywright E ''.*'' playwrightArgs))))))"

subsection \<open>Reading a composed filter back\<close>

text \<open>Not a function of the source. The specification speaks of "an already-composed
  filter's tag set"; \<open>extractTags\<close> follows these words: the alternatives of the
  parenthesized group, split at the bars (with the source's own \<open>split_on\<close>). An
  expression that is no group is read as it stands.\<close>

definition strip_group :: "string \<Rightarrow> string" where
  "strip_group e =
     (if 2 \<le> length e \<and> hd e = CHR ''('' \<and> last e = CHR '')'' then butlast (tl e) else e)"

definition extractTags :: "string \<Rightarrow> string list" where
  "extractTags e = split_on (CHR ''|'') (strip_group e)"

subsection \<open>Observing a trace\<close>

text \<open>The events by which a call consults the mapping source: \<open>loadMappings\<close> is the
  only function that looks for the file or loads it.\<close>

fun is_mapping_access :: "event \<Rightarrow> bool" where
  "is_mapping_access (ExistsSync p) = True"
| "is_mapping_access (Require p) = True"
| "is_mapping_access (Exec c) = False"
| "is_mapping_access (ConsoleLog l) = False"
| "is_mapping_access (ConsoleWarn l) = False"
| "is_mapping_access (ConsoleError l) = False"

subsection \<open>An example environment\<close>

text \<open>A repository on the branch \<open>feature\<close>: two files differ from \<open>main\<close>, nothing
  differs from \<open>release\<close>, and any other base makes the diff fail. There is no mappings
  file. The baseline run of the test runner succeeds, the run of all tests ends with
  status 2, and any other command cannot be spawned.\<close>

definition example_exec :: "string \<Rightarrow> js_error + string" where
  "example_exec cmd =
     (if cmd = ''git rev-parse --abbrev-ref HEAD'' then Inr (''feature'' @ [CHR 0x0A])
      else if cmd = ''git diff --name-only main...HEAD'' then
        Inr (''src/auth/login.ts'' @ [CHR 0x0A] @ ''src/api/users.ts'' @ [CHR 0x0A])
      else if cmd = ''git diff --name-only release...HEAD'' then Inr [CHR 0x0A]
      else if cmd = playwright_command ''@baseline'' [] then Inr []
      else if cmd = playwright_command ''.*'' [] then
        Inl \<lparr>message = ''Command failed'', status = Some 2\<rparr>
      else Inl \<lparr>message = ''spawnSync /bin/sh ENOENT'', status = None\<rparr>)"

definition example_env :: env where
  "example_env =
     \<lparr>execSync = example_exec,
      existsSync = (\<lambda>p. False),
      require_module = (\<lambda>p. Inl (new_Error ''Cannot find module'')),
      path_resolve = (\<lambda>f. ''/repo/'' @ f),
      MAPPER_DISABLE = None\<rparr>"

definition example_config :: "string \<Rightarrow> config" where
  "example_config base =
     \<lparr>mappingsFile = ''test-mappings.js'', baseBranch = base,
      config_addBaseline = False, verbose = False\<rparr>"

definition example_mappings :: mappings where
  "example_mappings =
     [(''@auth'', [''src/auth/'']), (''@api'', [''src/api/'']),
      (''@ui'', [''src/components/''])]"

subsection \<open>Properties of computeGrepPattern\<close>

lemma array_includes_iff: "array_includes xs x \<longleftrightarrow> x \<in> set xs"
  by (auto simp: array_includes_def list_ex_iff)

lemma allTags_empty_iff:
  "allTags tags opts = [] \<longleftrightarrow> tags = [] \<and> addBaseline opts = Some False"
  by (auto simp: allTags_def Let_def array_includes_iff split: option.splits)

lemma allTags_cases:
  "allTags tags opts =
     (if addBaseline opts \<noteq> Some False \<and> baseline_tag \<notin> set tags
      then tags @ [baseline_tag] else tags)"
  by (auto simp: allTags_def Let_def array_includes_iff split: option.splits)

subsubsection \<open>Splitting and joining\<close>

lemma split_on_not_Nil: "split_on c s \<noteq> []"
  by (induction s) (auto split: list.splits)

lemma split_on_append_sep: "split_on c (a @ c # b) = split_on c a @ split_on c b"
proof (induction a)
  case Nil
  then show ?case by simp
next
  case (Cons x a)
  obtain y ys where "split_on c a = y # ys"
    using split_on_not_Nil [of c a] by (cases "split_on c a") auto
  with Cons show ?case by simp
qed

lemma split_on_no_sep: "c \<notin> set s \<Longrightarrow> split_on c s = [s]"
  by (induction s) auto

lemma join_split_on: "join [c] (split_on c s) = s"
proof (induction s)
  case Nil
  then show ?case by simp
next
  case (Cons x s)
  obtain y ys where ys: "split_on c s = y # ys"
    using split_on_not_Nil [of c s] by (cases "split_on c s") auto
  show ?case
  proof (cases "x = c")
    case True
    with Cons ys show ?thesis by simp
  next
    case False
    with Cons ys show ?thesis by (cases ys) auto
  qed
qed

lemma split_on_join:
  "xs \<noteq> [] \<Longrightarrow> split_on c (join [c] xs) = concat (map (split_on c) xs)"
proof (induction "[c]" xs rule: join.induct)
  case 1
  then show ?case by simp
next
  case (2 x)
  then show ?case by simp
next
  case (3 x y ys)
  then show ?case using split_on_append_sep [of c x "join [c] (y # ys)"] by simp
qed

lemma concat_split_on_no_sep:
  "\<forall>x\<in>set xs. c \<notin> set x \<Longrightarrow> concat (map (split_on c) xs) = xs"
  by (induction xs) (auto simp: split_on_no_sep)

lemma split_on_join_id:
  assumes "xs \<noteq> []" and "\<forall>x\<in>set xs. c \<notin> set x"
  shows "split_on c (join [c] xs) = xs"
  using assms by (simp add: split_on_join concat_split_on_no_sep)

lemma member_split_on_join:
  assumes "x \<in> set xs" and "c \<notin> set x"
  shows "x \<in> set (split_on c (join [c] xs))"
proof -
  from assms(1) have "xs \<noteq> []" by auto
  moreover have "x \<in> set (split_on c x)" using assms(2) by (simp add: split_on_no_sep)
  ultimately show ?thesis using assms(1) by (auto simp: split_on_join)
qed

lemma strip_group_wrapped: "strip_group (CHR ''('' # m @ [CHR '')'']) = m"
  by (simp add: strip_group_def butlast_append)

lemma extractTags_wrapped:
  "extractTags (''('' @ join ''|'' xs @ '')'') = split_on (CHR ''|'') (join ''|'' xs)"
  by (simp add: extractTags_def strip_group_wrapped)

lemma baseline_no_bar: "CHR ''|'' \<notin> set baseline_tag"
  by (simp add: baseline_tag_def)

subsubsection \<open>The empty tag list with the baseline enabled\<close>

text \<open>
  C2 (as claimed): \<open>computeGrepPattern\<close> applied to an empty tag set with
  \<open>addBaseline\<close> true returns exactly the string \<open>@baseline\<close>, with no wrapping. The
  code pushes the baseline tag first, so the array is not empty when its length is
  tested, and the result is the group: the claim fails.
\<close>

theorem computeGrepPattern_empty_true_not_bare:
  "computeGrepPattern [] \<lparr>addBaseline = Some True\<rparr> \<noteq> ''@baseline''"
  by (simp add: computeGrepPattern_def allTags_def array_includes_def baseline_tag_def)

text \<open>
  C2 (amended): \<open>computeGrepPattern\<close> applied to an empty tag list with \<open>addBaseline\<close>
  true, or with the option left out, returns \<open>(@baseline)\<close>: the baseline tag as the
  only alternative of the parenthesized group.
\<close>

theorem computeGrepPattern_empty_true_group:
  "computeGrepPattern [] \<lparr>addBaseline = Some True\<rparr> = ''(@baseline)''
   \<and> computeGrepPattern [] no_options = ''(@baseline)''"
  by (simp add: computeGrepPattern_def allTags_def array_includes_def baseline_tag_def
      no_options_def)

subsubsection \<open>The pattern is never empty\<close>

text \<open>
  C3: for every tag list and every options value \<open>computeGrepPattern\<close> returns a
  non-empty string; the array after the baseline handling is empty exactly when there
  are no tags and \<open>addBaseline\<close> is false, and then the result is the baseline tag
  alone.
\<close>

theorem computeGrepPattern_never_empty:
  "computeGrepPattern tags opts \<noteq> []
   \<and> (allTags tags opts = [] \<longleftrightarrow> tags = [] \<and> addBaseline opts = Some False)
   \<and> (tags = [] \<and> addBaseline opts = Some False
        \<longrightarrow> computeGrepPattern tags opts = ''@baseline'')"
  by (auto simp: computeGrepPattern_def Let_def allTags_empty_iff baseline_tag_def)

theorem computeGrepPattern_never_empty_witness:
  "computeGrepPattern [] \<lparr>addBaseline = Some False\<rparr> = ''@baseline''
   \<and> computeGrepPattern [] \<lparr>addBaseline = Some False\<rparr> \<noteq> []"
  using computeGrepPattern_never_empty [of "[]" "\<lparr>addBaseline = Some False\<rparr>"]
  by simp

subsubsection \<open>The alternation\<close>

text \<open>
  C4: when the effective tag list is not empty (there is a tag, or \<open>addBaseline\<close> is
  not false), the result is the parenthesized group of all tags joined by bars: the
  tags in the order of the input, followed by the baseline tag when \<open>addBaseline\<close> is
  true and the input does not contain it. The baseline tag is never duplicated: it
  occurs as often as in the input, or once when it was appended; a list without
  repetitions stays so. When no tag contains a bar, splitting the inside of the group
  at the bars gives the effective list back, in order.
\<close>

theorem computeGrepPattern_alternation:
  assumes "tags \<noteq> [] \<or> addBaseline opts \<noteq> Some False"
  shows "allTags tags opts =
           (if addBaseline opts \<noteq> Some False \<and> ''@baseline'' \<notin> set tags
            then tags @ [''@baseline''] else tags)
         \<and> computeGrepPattern tags opts = ''('' @ join ''|'' (allTags tags opts) @ '')''
         \<and> count_list (allTags tags opts) ''@baseline'' =
             max (count_list tags ''@baseline'')
                 (if addBaseline opts \<noteq> Some False then 1 else 0)
         \<and> (distinct tags \<longrightarrow> distinct (allTags tags opts))
         \<and> ((\<forall>t\<in>set tags. CHR ''|'' \<notin> set t) \<longrightarrow>
              split_on (CHR ''|'') (join ''|'' (allTags tags opts)) = allTags tags opts)"
proof -
  have ne: "allTags tags opts \<noteq> []"
    using assms by (simp add: allTags_empty_iff)
  have shape: "allTags tags opts =
           (if addBaseline opts \<noteq> Some False \<and> ''@baseline'' \<notin> set tags
            then tags @ [''@baseline''] else tags)"
    using allTags_cases [of tags opts] by (simp add: baseline_tag_def)
  have pattern: "computeGrepPattern tags opts = ''('' @ join ''|'' (allTags tags opts) @ '')''"
    using ne by (simp add: computeGrepPattern_def)
  have once: "count_list (allTags tags opts) ''@baseline'' =
             max (count_list tags ''@baseline'')
                 (if addBaseline opts \<noteq> Some False then 1 else 0)"
  proof (cases "''@baseline'' \<in> set tags")
    case True
    then have "0 < count_list tags ''@baseline''"
      using count_list_0_iff [of tags "''@baseline''"] by auto
    with True show ?thesis unfolding shape by auto
  next
    case False
    then have "count_list tags ''@baseline'' = 0" by (simp add: count_list_0_iff)
    with False show ?thesis unfolding shape by simp
  qed
  have dist: "distinct tags \<longrightarrow> distinct (allTags tags opts)"
    unfolding shape by simp
  have readback: "(\<forall>t\<in>set tags. CHR ''|'' \<notin> set t) \<longrightarrow>
              split_on (CHR ''|'') (join ''|'' (allTags tags opts)) = allTags tags opts"
  proof
    assume nobar: "\<forall>t\<in>set tags. CHR ''|'' \<notin> set t"
    have "\<forall>t\<in>set (allTags tags opts). CHR ''|'' \<notin> set t"
      unfolding shape using nobar by simp
    then show "split_on (CHR ''|'') (join ''|'' (allTags tags opts)) = allTags tags opts"
      using split_on_join_id [of "allTags tags opts" "CHR ''|''"] ne by simp
  qed
  from shape pattern once dist readback show ?thesis by blast
qed

theorem computeGrepPattern_alternation_witness:
  "computeGrepPattern [''@auth'', ''@api''] \<lparr>addBaseline = Some True\<rparr>
     = ''(@auth|@api|@baseline)''
   \<and> allTags [''@auth'', ''@api''] \<lparr>addBaseline = Some True\<rparr>
     = [''@auth'', ''@api'', ''@baseline'']
   \<and> split_on (CHR ''|'') ''@auth|@api|@baseline'' = [''@auth'', ''@api'', ''@baseline'']"
  using computeGrepPattern_alternation [of "[''@auth'', ''@api'']" "\<lparr>addBaseline = Some True\<rparr>"]
  by simp

subsubsection \<open>Composing the tags of a composed filter again\<close>

lemma allTags_idem: "allTags (allTags tags opts) opts = allTags tags opts"
  by (simp add: allTags_cases)

lemma recompose_group:
  assumes "tags \<noteq> [] \<or> addBaseline opts \<noteq> Some False"
  shows "computeGrepPattern (extractTags (computeGrepPattern tags opts)) opts
         = computeGrepPattern tags opts"
proof -
  let ?all = "allTags tags opts"
  let ?L = "split_on (CHR ''|'') (join ''|'' ?all)"
  from assms have ne: "?all \<noteq> []" by (simp add: allTags_empty_iff)
  then have first: "computeGrepPattern tags opts = ''('' @ join ''|'' ?all @ '')''"
    by (simp add: computeGrepPattern_def)
  have ext: "extractTags (computeGrepPattern tags opts) = ?L"
    unfolding first by (rule extractTags_wrapped)
  have Lne: "?L \<noteq> []" by (rule split_on_not_Nil)
  have "allTags ?L opts = ?L"
  proof (cases "addBaseline opts = Some False")
    case True
    then show ?thesis by (simp add: allTags_cases)
  next
    case False
    then have "baseline_tag \<in> set ?all" by (auto simp: allTags_cases)
    then have "baseline_tag \<in> set ?L"
      using member_split_on_join [of baseline_tag ?all "CHR ''|''"] baseline_no_bar
      by simp
    then show ?thesis by (simp add: allTags_cases)
  qed
  then have "computeGrepPattern ?L opts = ''('' @ join ''|'' ?L @ '')''"
    using Lne by (simp add: computeGrepPattern_def)
  also have "join ''|'' ?L = join ''|'' ?all"
    using join_split_on [of "CHR ''|''" "join ''|'' ?all"] by simp
  finally show ?thesis using ext first by simp
qed

text \<open>The one case outside the group: without tags and with \<open>addBaseline\<close> false the
  baseline tag is returned bare, and composing it again sets it in the group. Both
  expressions hold the baseline tag and nothing else.\<close>

lemma recompose_fallback:
  assumes "tags = []" and "addBaseline opts = Some False"
  shows "computeGrepPattern tags opts = ''@baseline''"
    and "computeGrepPattern (extractTags (computeGrepPattern tags opts)) opts
         = ''(@baseline)''"
    and "extractTags ''@baseline'' = [''@baseline'']"
    and "extractTags ''(@baseline)'' = [''@baseline'']"
  using assms
  by (simp_all add: computeGrepPattern_def allTags_def extractTags_def strip_group_def
      baseline_tag_def array_includes_def)

text \<open>
  C5: for every tag list and options, extracting the tag set from the composed
  expression and composing it again with the same options yields the same expression,
  modulo the reserved baseline tag's presence. The two expressions have the same
  extracted tags for every input, hence the same tags beside the baseline tag. They
  are the same string whenever the effective tag list is not empty (there is a tag,
  or \<open>addBaseline\<close> is not false); in the remaining case the first expression is the
  bare baseline tag and the second is the group of the baseline tag alone. Composing
  the effective tag list of the first composition again yields the same string for
  every input.
\<close>

theorem recompose_same_expression:
  "(tags \<noteq> [] \<or> addBaseline opts \<noteq> Some False \<longrightarrow>
      computeGrepPattern (extractTags (computeGrepPattern tags opts)) opts
      = computeGrepPattern tags opts)
   \<and> extractTags (computeGrepPattern (extractTags (computeGrepPattern tags opts)) opts)
      = extractTags (computeGrepPattern tags opts)
   \<and> filter (\<lambda>t. t \<noteq> ''@baseline'')
        (extractTags (computeGrepPattern (extractTags (computeGrepPattern tags opts)) opts))
      = filter (\<lambda>t. t \<noteq> ''@baseline'') (extractTags (computeGrepPattern tags opts))
   \<and> (tags = [] \<and> addBaseline opts = Some False \<longrightarrow>
        computeGrepPattern tags opts = ''@baseline''
        \<and> computeGrepPattern (extractTags (computeGrepPattern tags opts)) opts
            = ''(@baseline)''
        \<and> extractTags ''@baseline'' = extractTags ''(@baseline)'')
   \<and> computeGrepPattern (allTags tags opts) opts = computeGrepPattern tags opts"
proof -
  have tags_same:
    "extractTags (computeGrepPattern (extractTags (computeGrepPattern tags opts)) opts)
     = extractTags (computeGrepPattern tags opts)"
  proof (cases "tags \<noteq> [] \<or> addBaseline opts \<noteq> Some False")
    case True
    then show ?thesis using recompose_group by simp
  next
    case False
    then show ?thesis using recompose_fallback [of tags opts] by simp
  qed
  have group: "tags \<noteq> [] \<or> addBaseline opts \<noteq> Some False \<longrightarrow>
      computeGrepPattern (extractTags (computeGrepPattern tags opts)) opts
      = computeGrepPattern tags opts"
    using recompose_group [of tags opts] by blast
  have beside_baseline: "filter (\<lambda>t. t \<noteq> ''@baseline'')
        (extractTags (computeGrepPattern (extractTags (computeGrepPattern tags opts)) opts))
      = filter (\<lambda>t. t \<noteq> ''@baseline'') (extractTags (computeGrepPattern tags opts))"
    by (simp only: tags_same)
  have fallback: "tags = [] \<and> addBaseline opts = Some False \<longrightarrow>
        computeGrepPattern tags opts = ''@baseline''
        \<and> computeGrepPattern (extractTags (computeGrepPattern tags opts)) opts
            = ''(@baseline)''
        \<and> extractTags ''@baseline'' = extractTags ''(@baseline)''"
  proof
    assume "tags = [] \<and> addBaseline opts = Some False"
    then have "tags = []" and "addBaseline opts = Some False" by simp_all
    from recompose_fallback [OF this]
    show "computeGrepPattern tags opts = ''@baseline''
        \<and> computeGrepPattern (extractTags (computeGrepPattern tags opts)) opts
            = ''(@baseline)''
        \<and> extractTags ''@baseline'' = extractTags ''(@baseline)''"
      by simp
  qed
  have effective: "computeGrepPattern (allTags tags opts) opts = computeGrepPattern tags opts"
    by (simp add: computeGrepPattern_def allTags_idem)
  show ?thesis
    by (intro conjI group tags_same beside_baseline fallback effective)
qed

theorem recompose_same_expression_witness:
  "computeGrepPattern [''@x''] \<lparr>addBaseline = Some False\<rparr> = ''(@x)''
   \<and> extractTags ''(@x)'' = [''@x'']
   \<and> computeGrepPattern (extractTags (computeGrepPattern [''@x''] \<lparr>addBaseline = Some False\<rparr>))
        \<lparr>addBaseline = Some False\<rparr> = ''(@x)''
   \<and> computeGrepPattern [] \<lparr>addBaseline = Some False\<rparr> = ''@baseline''
   \<and> computeGrepPattern (extractTags (computeGrepPattern [] \<lparr>addBaseline = Some False\<rparr>))
        \<lparr>addBaseline = Some False\<rparr> = ''(@baseline)''
   \<and> extractTags ''@baseline'' = [''@baseline'']
   \<and> extractTags ''(@baseline)'' = [''@baseline'']"
  using recompose_same_expression [of "[''@x'']" "\<lparr>addBaseline = Some False\<rparr>"]
    recompose_same_expression [of "[]" "\<lparr>addBaseline = Some False\<rparr>"]
  by (simp add: computeGrepPattern_def allTags_def extractTags_def strip_group_def
      array_includes_def baseline_tag_def)

subsubsection \<open>The caller's array\<close>

text \<open>
  C10: \<open>computeGrepPattern\<close> does not write to its input. Run on a store in which
  \<open>tags\<close> is an array, it returns the pattern of the pure function, and every array
  of the store before the call, the one at \<open>tags\<close> among them, is the same after it:
  the baseline tag is pushed on the copy, which is a new array.
\<close>

theorem computeGrepPattern_store_frame:
  assumes "tags < length s"
  shows "\<exists>s'. computeGrepPattern_store s tags opts
                 = Some (computeGrepPattern (s ! tags) opts, s')
           \<and> s' ! tags = s ! tags \<and> take (length s) s' = s"
  using assms
  by (auto simp: computeGrepPattern_store_def computeGrepPattern_def allTags_def Let_def
      spread_copy_def array_push_def nth_append split: option.splits)

theorem computeGrepPattern_store_frame_witness:
  "computeGrepPattern_store [[''@auth'']] 0 no_options
     = Some (''(@auth|@baseline)'', [[''@auth''], [''@auth'', ''@baseline'']])"
  using computeGrepPattern_store_frame [of 0 "[[''@auth'']]" no_options]
  by (simp add: computeGrepPattern_store_def computeGrepPattern_def allTags_def
      spread_copy_def array_push_def array_includes_def baseline_tag_def no_options_def)

subsection \<open>Properties of getMappedTags\<close>

lemma startsWith_iff: "startsWith f path \<longleftrightarrow> (\<exists>rest. f = path @ rest)"
proof
  assume "startsWith f path"
  then have "f = path @ drop (length path) f"
    unfolding startsWith_def by (metis append_take_drop_id)
  then show "\<exists>rest. f = path @ rest" ..
next
  assume "\<exists>rest. f = path @ rest"
  then show "startsWith f path" by (auto simp: startsWith_def)
qed

lemma set_add_set: "set (set_add tag tags) = insert tag (set tags)"
  by (auto simp: set_add_def)

lemma set_add_distinct: "distinct tags \<Longrightarrow> distinct (set_add tag tags)"
  by (auto simp: set_add_def)

lemma set_matching_tags:
  "set (matching_tags f ms) =
     {T. \<exists>paths. (T, paths) \<in> set ms \<and> (\<exists>path\<in>set paths. startsWith f path)}"
  by (force simp: matching_tags_def list_ex_iff)

text \<open>One pass of the inner loop adds the tags of the entries that the file matches,
  keeps the set free of repetitions, and only prints.\<close>

lemma for_entries_result:
  "\<exists>t tags'. for_entries v f ms tags = (t, Return tags')
     \<and> set tags' = set tags \<union> set (matching_tags f ms)
     \<and> (distinct tags \<longrightarrow> distinct tags')
     \<and> (\<forall>e\<in>set t. \<not> is_mapping_access e)"
proof (induction ms arbitrary: tags)
  case Nil
  then show ?case by (simp add: ret_def matching_tags_def)
next
  case (Cons entry rest)
  obtain tag paths where entry: "entry = (tag, paths)" by (cases entry)
  show ?case
  proof (cases "list_ex (\<lambda>path. startsWith f path) paths")
    case True
    from Cons [of "set_add tag tags"] obtain t tags' where
      rec: "for_entries v f rest (set_add tag tags) = (t, Return tags')"
        "set tags' = set (set_add tag tags) \<union> set (matching_tags f rest)"
        "distinct (set_add tag tags) \<longrightarrow> distinct tags'"
        "\<forall>e\<in>set t. \<not> is_mapping_access e"
      by blast
    from True have "matching_tags f (entry # rest) = tag # matching_tags f rest"
      by (simp add: entry matching_tags_def)
    with True rec show ?thesis
      by (auto simp: entry and_then_def when_do_def console_log_def ret_def
          set_add_set set_add_distinct)
  next
    case False
    then have "matching_tags f (entry # rest) = matching_tags f rest"
      by (simp add: entry matching_tags_def)
    with False Cons [of tags] show ?thesis
      by (auto simp: entry)
  qed
qed

lemma for_files_result:
  "\<exists>t tags'. for_files v ms files tags = (t, Return tags')
     \<and> set tags' = set tags \<union> (\<Union>f\<in>set files. set (matching_tags f ms))
     \<and> (distinct tags \<longrightarrow> distinct tags')
     \<and> (\<forall>e\<in>set t. \<not> is_mapping_access e)"
proof (induction files arbitrary: tags)
  case Nil
  then show ?case by (simp add: ret_def)
next
  case (Cons f files)
  obtain t1 tags1 where
    one: "for_entries v f ms tags = (t1, Return tags1)"
      "set tags1 = set tags \<union> set (matching_tags f ms)"
      "distinct tags \<longrightarrow> distinct tags1"
      "\<forall>e\<in>set t1. \<not> is_mapping_access e"
    using for_entries_result [of v f ms tags] by blast
  from Cons [of tags1] obtain t2 tags2 where
    rec: "for_files v ms files tags1 = (t2, Return tags2)"
      "set tags2 = set tags1 \<union> (\<Union>f\<in>set files. set (matching_tags f ms))"
      "distinct tags1 \<longrightarrow> distinct tags2"
      "\<forall>e\<in>set t2. \<not> is_mapping_access e"
    by blast
  from one rec show ?case
    by (auto simp: and_then_def)
qed

lemma for_files_from_empty:
  "\<exists>t tags. for_files v ms files [] = (t, Return tags)
     \<and> set tags = (\<Union>f\<in>set files. set (matching_tags f ms))
     \<and> distinct tags
     \<and> (\<forall>e\<in>set t. \<not> is_mapping_access e)"
  using for_files_result [of v ms files "[]"] by simp

text \<open>
  C1: for every mapping table and every list of changed files, \<open>getMappedTags\<close>
  returns (it does not throw), a tag \<open>T\<close> is in the result if and only if the table
  has an entry for \<open>T\<close> with a prefix that some changed file starts with, and no tag
  occurs twice in the result.
\<close>

theorem getMappedTags_iff:
  "\<exists>t tags. getMappedTags E changedFiles (MappingsObject ms) v = (t, Return tags)
     \<and> distinct tags
     \<and> (\<forall>T. T \<in> set tags \<longleftrightarrow>
          (\<exists>paths f path rest. (T, paths) \<in> set ms \<and> f \<in> set changedFiles
             \<and> path \<in> set paths \<and> f = path @ rest))"
proof -
  obtain t tags where
    r: "for_files v ms changedFiles [] = (t, Return tags)"
      "set tags = (\<Union>f\<in>set changedFiles. set (matching_tags f ms))"
      "distinct tags"
    using for_files_from_empty [of v ms changedFiles] by blast
  have "getMappedTags E changedFiles (MappingsObject ms) v = (t, Return tags)"
    using r(1) by (simp add: getMappedTags_def and_then_def ret_def)
  moreover have "\<forall>T. T \<in> set tags \<longleftrightarrow>
          (\<exists>paths f path rest. (T, paths) \<in> set ms \<and> f \<in> set changedFiles
             \<and> path \<in> set paths \<and> f = path @ rest)"
    unfolding r(2) by (auto simp: set_matching_tags startsWith_iff)
  ultimately show ?thesis using r(3) by blast
qed

theorem getMappedTags_iff_witness:
  "getMappedTags example_env [''src/auth/login.ts'', ''src/api/users.ts'']
     (MappingsObject example_mappings) False = ([], Return [''@auth'', ''@api''])"
  using getMappedTags_iff [of example_env "[''src/auth/login.ts'', ''src/api/users.ts'']"
      example_mappings False]
  by (simp add: getMappedTags_def and_then_def ret_def when_do_def example_mappings_def
      startsWith_def set_add_def)

subsection \<open>Properties of the effects\<close>

text \<open>The outputs of the example environment, trimmed.\<close>

lemma trim_examples:
  "trim [] = []"
  "trim [CHR 0x0A] = []"
  "trim (''feature'' @ [CHR 0x0A]) = ''feature''"
  "trim (''src/auth/login.ts'' @ [CHR 0x0A] @ ''src/api/users.ts'' @ [CHR 0x0A])
     = ''src/auth/login.ts'' @ [CHR 0x0A] @ ''src/api/users.ts''"
  by code_simp+

lemmas run_defs =
  getChangedFiles_def try_catch_def and_then_def exec_def when_do_def
  console_logs_def console_log_def console_warn_def console_error_def ret_def throw_def
  process_exit_def runPlaywright_def runCommand_def listCommand_def loadMappings_def
  fs_existsSync_def new_Error_def status_or_1_def playwright_command_def
  example_env_def example_exec_def example_config_def
  configuration_lines_def show_bool_def Let_def

lemma getChangedFiles_returns:
  "snd (getChangedFiles E b v) =
     Return (case execSync E ''git rev-parse --abbrev-ref HEAD'' of
               Inl e \<Rightarrow> []
             | Inr branch \<Rightarrow>
                 (case execSync E (''git diff --name-only '' @ b @ ''...HEAD'') of
                    Inl e \<Rightarrow> []
                  | Inr out \<Rightarrow> filter (\<lambda>f. f \<noteq> []) (split_on (CHR 0x0A) (trim out))))"
  by (simp add: getChangedFiles_def try_catch_def and_then_def exec_def when_do_def
      console_logs_def console_log_def console_warn_def ret_def Let_def
      split: sum.splits)

lemma getChangedFiles_trace:
  "e \<in> set (fst (getChangedFiles E b v)) \<Longrightarrow>
     e = Exec ''git rev-parse --abbrev-ref HEAD''
   \<or> e = Exec (''git diff --name-only '' @ b @ ''...HEAD'')
   \<or> (\<exists>l. e = ConsoleLog l) \<or> (\<exists>l. e = ConsoleWarn l)"
  by (auto simp: getChangedFiles_def try_catch_def and_then_def exec_def when_do_def
      console_logs_def console_log_def console_warn_def ret_def Let_def
      split: sum.splits if_splits)

lemma getChangedFiles_no_mapping_access:
  "e \<in> set (fst (getChangedFiles E b v)) \<Longrightarrow> \<not> is_mapping_access e"
  using getChangedFiles_trace [of e E b v] by auto

lemma playwright_command_head: "\<exists>r. playwright_command g a = CHR ''n'' # r"
  by (simp add: playwright_command_def)

lemma getChangedFiles_no_runner:
  "Exec (playwright_command g a) \<notin> set (fst (getChangedFiles E b v))"
proof
  assume "Exec (playwright_command g a) \<in> set (fst (getChangedFiles E b v))"
  from getChangedFiles_trace [OF this] playwright_command_head [of g a]
  show False by auto
qed

subsubsection \<open>Change detection does not fail\<close>

text \<open>
  C6: \<open>getChangedFiles\<close> never propagates an error: in every environment it returns a
  list of files. When the branch query or the diff command fails, the list is empty;
  when the diff succeeds with empty output (nothing but white space), the list is
  empty; and the empty string is never an element of the list.
\<close>

theorem getChangedFiles_never_throws:
  "\<exists>t files. getChangedFiles E b v = (t, Return files)
     \<and> [] \<notin> set files
     \<and> ((\<exists>e. execSync E ''git rev-parse --abbrev-ref HEAD'' = Inl e) \<longrightarrow> files = [])
     \<and> ((\<exists>e. execSync E (''git diff --name-only '' @ b @ ''...HEAD'') = Inl e)
          \<longrightarrow> files = [])
     \<and> ((\<exists>out. execSync E (''git diff --name-only '' @ b @ ''...HEAD'') = Inr out
            \<and> trim out = []) \<longrightarrow> files = [])"
proof -
  obtain t r where tr: "getChangedFiles E b v = (t, r)" by (cases "getChangedFiles E b v")
  from getChangedFiles_returns [of E b v] tr obtain files where
    files: "r = Return files"
      "files = (case execSync E ''git rev-parse --abbrev-ref HEAD'' of
               Inl e \<Rightarrow> []
             | Inr branch \<Rightarrow>
                 (case execSync E (''git diff --name-only '' @ b @ ''...HEAD'') of
                    Inl e \<Rightarrow> []
                  | Inr out \<Rightarrow> filter (\<lambda>f. f \<noteq> []) (split_on (CHR 0x0A) (trim out))))"
    by simp
  have "[] \<notin> set files"
    unfolding files(2) by (simp split: sum.splits)
  moreover have "(\<exists>e. execSync E ''git rev-parse --abbrev-ref HEAD'' = Inl e) \<longrightarrow> files = []"
    unfolding files(2) by auto
  moreover have "(\<exists>e. execSync E (''git diff --name-only '' @ b @ ''...HEAD'') = Inl e)
          \<longrightarrow> files = []"
    unfolding files(2) by (auto split: sum.splits)
  moreover have "(\<exists>out. execSync E (''git diff --name-only '' @ b @ ''...HEAD'') = Inr out
            \<and> trim out = []) \<longrightarrow> files = []"
    unfolding files(2) by (auto split: sum.splits)
  ultimately show ?thesis using tr files(1) by blast
qed

theorem getChangedFiles_never_throws_witness:
  "getChangedFiles example_env ''dev'' False
     = ([Exec ''git rev-parse --abbrev-ref HEAD'', Exec ''git diff --name-only dev...HEAD''],
        Return [])
   \<and> getChangedFiles example_env ''release'' False
     = ([Exec ''git rev-parse --abbrev-ref HEAD'',
         Exec ''git diff --name-only release...HEAD''], Return [])
   \<and> getChangedFiles example_env ''main'' False
     = ([Exec ''git rev-parse --abbrev-ref HEAD'', Exec ''git diff --name-only main...HEAD''],
        Return [''src/auth/login.ts'', ''src/api/users.ts''])
   \<and> getChangedFiles
       (example_env\<lparr>execSync := (\<lambda>cmd. Inl (new_Error ''not a git repository''))\<rparr>)
       ''main'' True
     = ([Exec ''git rev-parse --abbrev-ref HEAD'',
         ConsoleWarn ''[mapper] Error detecting changed files: not a git repository''],
        Return [])"
  using getChangedFiles_never_throws [of example_env "''dev''" False]
    getChangedFiles_never_throws [of example_env "''release''" False]
    getChangedFiles_never_throws
      [of "example_env\<lparr>execSync := (\<lambda>cmd. Inl (new_Error ''not a git repository''))\<rparr>"
          "''main''" True]
  by (simp add: run_defs trim_examples [simplified])

lemma runPlaywright_returns:
  "runPlaywright E g a =
     ([Exec (playwright_command g a)],
      Return (case execSync E (playwright_command g a) of
                Inr out \<Rightarrow> 0
              | Inl e \<Rightarrow> status_or_1 (status e)))"
  by (simp add: runPlaywright_def try_catch_def and_then_def exec_def ret_def Let_def
      split: sum.splits)

subsubsection \<open>The status of the runner\<close>

text \<open>
  C8: \<open>runPlaywright\<close> never throws: for every filter and every list of further
  arguments it runs the one command and returns an integer. The integer is 0 when the
  command succeeds, the status of the error when the command fails with a status (a
  failed process reports a status other than 0), and 1 when the error carries no
  status.
\<close>

theorem runPlaywright_status:
  "\<exists>c. runPlaywright E g a = ([Exec (playwright_command g a)], Return c)
     \<and> ((\<exists>out. execSync E (playwright_command g a) = Inr out) \<longrightarrow> c = 0)
     \<and> (\<forall>e k. execSync E (playwright_command g a) = Inl e \<and> status e = Some k \<and> k \<noteq> 0
          \<longrightarrow> c = k)
     \<and> (\<forall>e. execSync E (playwright_command g a) = Inl e \<and> status e = None \<longrightarrow> c = 1)"
  unfolding runPlaywright_returns by (auto simp: status_or_1_def)

theorem runPlaywright_status_witness:
  "runPlaywright example_env ''@baseline'' []
     = ([Exec (''npx playwright test -g '' @ [CHR 0x22] @ ''@baseline'' @ [CHR 0x22])],
        Return 0)
   \<and> snd (runPlaywright example_env ''.*'' []) = Return 2
   \<and> snd (runPlaywright example_env ''(@x)'' [''--headed'']) = Return 1"
  using runPlaywright_status [of example_env "''@baseline''" "[]"]
    runPlaywright_status [of example_env "''.*''" "[]"]
    runPlaywright_status [of example_env "''(@x)''" "[''--headed'']"]
  by (simp add: run_defs trim_examples [simplified])

text \<open>An error thrown with the status 0 would be answered by 1 as well, the 0 being
  falsy; \<^verbatim>\<open>execSync\<close> throws for a process that ended with another status than 0, or
  that has none.\<close>

lemma runPlaywright_status_zero:
  assumes "execSync E (playwright_command g a) = Inl e" and "status e = Some 0"
  shows "snd (runPlaywright E g a) = Return 1"
  using assms by (simp add: runPlaywright_returns status_or_1_def)

subsubsection \<open>The commands around the load\<close>

lemma loadMappings_missing:
  "\<not> existsSync E (path_resolve E f) \<Longrightarrow>
     loadMappings E f =
       ([ExistsSync (path_resolve E f)],
        Throw (new_Error (''Mappings file not found: '' @ path_resolve E f)))"
  by (simp add: loadMappings_def and_then_def fs_existsSync_def throw_def Let_def)

lemma runCommand_no_changes:
  assumes "MAPPER_DISABLE E \<noteq> Some ''1''"
    and "snd (getChangedFiles E (baseBranch cfg) (verbose cfg)) = Return []"
  shows "runCommand E cfg args =
           ((if verbose cfg then map ConsoleLog (configuration_lines cfg @ [[]]) else [])
            @ fst (getChangedFiles E (baseBranch cfg) (verbose cfg))
            @ (if verbose cfg
               then [ConsoleLog ''[mapper] No changes detected, running @baseline tests only'']
               else [])
            @ [Exec (playwright_command ''@baseline'' args)],
            snd (runPlaywright E ''@baseline'' args))"
proof -
  obtain t where t: "getChangedFiles E (baseBranch cfg) (verbose cfg) = (t, Return [])"
    using assms(2) by (cases "getChangedFiles E (baseBranch cfg) (verbose cfg)") auto
  show ?thesis
    using assms(1) t
    by (simp add: runCommand_def and_then_def when_do_def console_logs_def console_log_def
        ret_def runPlaywright_returns)
qed

lemma runCommand_missing:
  assumes "MAPPER_DISABLE E \<noteq> Some ''1''"
    and "snd (getChangedFiles E (baseBranch cfg) (verbose cfg)) \<noteq> Return []"
    and "\<not> existsSync E (path_resolve E (mappingsFile cfg))"
  shows "runCommand E cfg args =
           ((if verbose cfg then map ConsoleLog (configuration_lines cfg @ [[]]) else [])
            @ fst (getChangedFiles E (baseBranch cfg) (verbose cfg))
            @ [ExistsSync (path_resolve E (mappingsFile cfg)),
               ConsoleError (''[mapper] Error: Mappings file not found: ''
                  @ path_resolve E (mappingsFile cfg)),
               ConsoleError ''[mapper] Falling back to running all tests'',
               Exec (playwright_command ''.*'' args)],
            snd (runPlaywright E ''.*'' args))"
proof -
  obtain t files where t: "getChangedFiles E (baseBranch cfg) (verbose cfg) = (t, Return files)"
    using getChangedFiles_returns [of E "baseBranch cfg" "verbose cfg"]
    by (cases "getChangedFiles E (baseBranch cfg) (verbose cfg)") auto
  with assms(2) have ne: "files \<noteq> []" by auto
  show ?thesis
    using assms(1) t ne
    by (simp add: runCommand_def and_then_def try_catch_def when_do_def console_logs_def
        console_error_def ret_def runPlaywright_returns loadMappings_missing [OF assms(3)]
        new_Error_def)
qed

lemma listCommand_missing:
  assumes "snd (getChangedFiles E (baseBranch cfg) True) \<noteq> Return []"
    and "\<not> existsSync E (path_resolve E (mappingsFile cfg))"
  shows "listCommand E cfg =
           (map ConsoleLog (configuration_lines cfg)
            @ fst (getChangedFiles E (baseBranch cfg) True)
            @ [ConsoleLog [],
               ExistsSync (path_resolve E (mappingsFile cfg)),
               ConsoleError (''[mapper] Error: Mappings file not found: ''
                  @ path_resolve E (mappingsFile cfg))],
            Exit 1)"
proof -
  obtain t files where t: "getChangedFiles E (baseBranch cfg) True = (t, Return files)"
    using getChangedFiles_returns [of E "baseBranch cfg" True]
    by (cases "getChangedFiles E (baseBranch cfg) True") auto
  with assms(1) have ne: "files \<noteq> []" by auto
  show ?thesis
    using t ne
    by (simp add: listCommand_def and_then_def try_catch_def console_logs_def
        console_log_def console_error_def process_exit_def
        loadMappings_missing [OF assms(2)] new_Error_def)
qed


text \<open>The two paths of the commands that do not reach the load: the bypass by
  \<open>MAPPER_DISABLE\<close>, which runs all tests without detecting changes, and the list
  command without changes, which returns without looking for the mappings file.\<close>

lemma runCommand_disabled:
  assumes "MAPPER_DISABLE E = Some ''1''"
  shows "runCommand E cfg args =
           ([ConsoleLog ''[mapper] MAPPER_DISABLE=1, running all tests'',
             Exec (playwright_command ''.*'' args)],
            snd (runPlaywright E ''.*'' args))"
  using assms
  by (simp add: runCommand_def and_then_def console_log_def runPlaywright_returns)

lemma listCommand_no_changes:
  assumes "snd (getChangedFiles E (baseBranch cfg) True) = Return []"
  shows "listCommand E cfg =
           (map ConsoleLog (configuration_lines cfg)
            @ fst (getChangedFiles E (baseBranch cfg) True)
            @ [ConsoleLog (CHR 0x0A # ''[mapper] No changed files detected''),
               ConsoleLog ''[mapper] Would run: @baseline only''],
            Return ())"
proof -
  obtain t where t: "getChangedFiles E (baseBranch cfg) True = (t, Return [])"
    using assms by (cases "getChangedFiles E (baseBranch cfg) True") auto
  show ?thesis
    using t by (simp add: listCommand_def and_then_def console_logs_def)
qed

lemma getChangedFiles_env_frame:
  "getChangedFiles (E\<lparr>existsSync := ex, require_module := rq, path_resolve := pr\<rparr>) b v
   = getChangedFiles E b v"
  by (simp add: getChangedFiles_def exec_def)

lemma runPlaywright_env_frame:
  "runPlaywright (E\<lparr>existsSync := ex, require_module := rq, path_resolve := pr\<rparr>) g a
   = runPlaywright E g a"
  by (simp add: runPlaywright_def exec_def)

subsubsection \<open>No changes: the baseline run\<close>

text \<open>
  C9: whenever the run command detects changes (\<open>MAPPER_DISABLE\<close> is not \<open>1\<close>, which
  would bypass the detection) and the detected list of changed files is empty, it
  invokes the runner with the filter \<open>@baseline\<close> and returns its status, for every
  configuration, whatever \<open>addBaseline\<close> is. It never consults the mapping source: no
  event of the run looks for the mappings file or loads it, and the run is the same
  whatever the file system and the module loader would answer.
\<close>

theorem no_changes_runs_baseline:
  assumes "MAPPER_DISABLE E \<noteq> Some ''1''"
    and "snd (getChangedFiles E (baseBranch cfg) (verbose cfg)) = Return []"
  shows "fst (runCommand E cfg args) =
           (if verbose cfg then map ConsoleLog (configuration_lines cfg @ [[]]) else [])
           @ fst (getChangedFiles E (baseBranch cfg) (verbose cfg))
           @ (if verbose cfg
              then [ConsoleLog ''[mapper] No changes detected, running @baseline tests only'']
              else [])
           @ [Exec (playwright_command ''@baseline'' args)]
         \<and> snd (runCommand E cfg args) = snd (runPlaywright E ''@baseline'' args)
         \<and> (\<forall>e\<in>set (fst (runCommand E cfg args)). \<not> is_mapping_access e)
         \<and> (\<forall>ex rq pr.
               runCommand (E\<lparr>existsSync := ex, require_module := rq, path_resolve := pr\<rparr>)
                 cfg args = runCommand E cfg args)"
proof -
  note run = runCommand_no_changes [OF assms, of args]
  have no_access: "\<forall>e\<in>set (fst (runCommand E cfg args)). \<not> is_mapping_access e"
    unfolding run by (auto dest: getChangedFiles_no_mapping_access)
  have frame: "runCommand (E\<lparr>existsSync := ex, require_module := rq, path_resolve := pr\<rparr>)
                 cfg args = runCommand E cfg args" for ex rq pr
  proof -
    let ?E' = "E\<lparr>existsSync := ex, require_module := rq, path_resolve := pr\<rparr>"
    have "MAPPER_DISABLE ?E' \<noteq> Some ''1''" using assms(1) by simp
    moreover have "snd (getChangedFiles ?E' (baseBranch cfg) (verbose cfg)) = Return []"
      using assms(2) by (simp only: getChangedFiles_env_frame)
    ultimately have "runCommand ?E' cfg args =
           ((if verbose cfg then map ConsoleLog (configuration_lines cfg @ [[]]) else [])
            @ fst (getChangedFiles ?E' (baseBranch cfg) (verbose cfg))
            @ (if verbose cfg
               then [ConsoleLog ''[mapper] No changes detected, running @baseline tests only'']
               else [])
            @ [Exec (playwright_command ''@baseline'' args)],
            snd (runPlaywright ?E' ''@baseline'' args))"
      by (rule runCommand_no_changes)
    then show ?thesis
      unfolding run by (simp only: getChangedFiles_env_frame runPlaywright_env_frame)
  qed
  from run no_access frame show ?thesis by simp
qed

theorem no_changes_runs_baseline_witness:
  "runCommand example_env (example_config ''release'') []
     = ([Exec ''git rev-parse --abbrev-ref HEAD'',
         Exec ''git diff --name-only release...HEAD'',
         Exec (playwright_command ''@baseline'' [])], Return 0)
   \<and> config_addBaseline (example_config ''release'') = False"
  using no_changes_runs_baseline [of example_env "example_config ''release''" "[]"]
  by (simp add: run_defs trim_examples [simplified])

subsubsection \<open>A mappings file that does not exist\<close>

text \<open>A command that looks for the mappings file has reached the call of
  \<open>loadMappings\<close>: the run was not bypassed and some changed file was detected.\<close>

lemma runCommand_reaches_load:
  assumes "ExistsSync p \<in> set (fst (runCommand E cfg args))"
  shows "MAPPER_DISABLE E \<noteq> Some ''1''
         \<and> snd (getChangedFiles E (baseBranch cfg) (verbose cfg)) \<noteq> Return []"
proof -
  have enabled: "MAPPER_DISABLE E \<noteq> Some ''1''"
  proof
    assume "MAPPER_DISABLE E = Some ''1''"
    from runCommand_disabled [OF this, of cfg args] assms show False by simp
  qed
  have "snd (getChangedFiles E (baseBranch cfg) (verbose cfg)) \<noteq> Return []"
  proof
    assume "snd (getChangedFiles E (baseBranch cfg) (verbose cfg)) = Return []"
    from runCommand_no_changes [OF enabled this, of args] assms
    have "ExistsSync p \<in> set (fst (getChangedFiles E (baseBranch cfg) (verbose cfg)))"
      by (auto split: if_splits)
    then show False by (auto dest: getChangedFiles_no_mapping_access)
  qed
  with enabled show ?thesis by simp
qed

lemma listCommand_reaches_load:
  assumes "ExistsSync p \<in> set (fst (listCommand E cfg))"
  shows "snd (getChangedFiles E (baseBranch cfg) True) \<noteq> Return []"
proof
  assume "snd (getChangedFiles E (baseBranch cfg) True) = Return []"
  from listCommand_no_changes [OF this] assms
  have "ExistsSync p \<in> set (fst (getChangedFiles E (baseBranch cfg) True))"
    by auto
  then show False by (auto dest: getChangedFiles_no_mapping_access)
qed

text \<open>
  C7: for every mappings path whose resolution does not exist, \<open>loadMappings\<close> throws
  the error "Mappings file not found" after looking for the file. Whenever the run
  command calls it, the error is caught: the command prints it, invokes the runner
  with the filter \<open>.*\<close> and returns the runner's status. Whenever the list command
  calls it, the command prints the error and ends the process with status 1, and no
  event of it invokes the runner.
\<close>

theorem missing_mappings_file:
  assumes "\<not> existsSync E (path_resolve E (mappingsFile cfg))"
  shows "loadMappings E (mappingsFile cfg) =
           ([ExistsSync (path_resolve E (mappingsFile cfg))],
            Throw (new_Error (''Mappings file not found: ''
                     @ path_resolve E (mappingsFile cfg))))
         \<and> (ExistsSync (path_resolve E (mappingsFile cfg))
               \<in> set (fst (runCommand E cfg args)) \<longrightarrow>
            runCommand E cfg args =
              ((if verbose cfg then map ConsoleLog (configuration_lines cfg @ [[]]) else [])
               @ fst (getChangedFiles E (baseBranch cfg) (verbose cfg))
               @ [ExistsSync (path_resolve E (mappingsFile cfg)),
                  ConsoleError (''[mapper] Error: Mappings file not found: ''
                     @ path_resolve E (mappingsFile cfg)),
                  ConsoleError ''[mapper] Falling back to running all tests'',
                  Exec (playwright_command ''.*'' args)],
               snd (runPlaywright E ''.*'' args)))
         \<and> (ExistsSync (path_resolve E (mappingsFile cfg))
               \<in> set (fst (listCommand E cfg)) \<longrightarrow>
            listCommand E cfg =
              (map ConsoleLog (configuration_lines cfg)
               @ fst (getChangedFiles E (baseBranch cfg) True)
               @ [ConsoleLog [],
                  ExistsSync (path_resolve E (mappingsFile cfg)),
                  ConsoleError (''[mapper] Error: Mappings file not found: ''
                     @ path_resolve E (mappingsFile cfg))],
               Exit 1)
            \<and> (\<forall>g a. Exec (playwright_command g a) \<notin> set (fst (listCommand E cfg))))"
proof -
  let ?p = "path_resolve E (mappingsFile cfg)"
  have load: "loadMappings E (mappingsFile cfg) =
           ([ExistsSync ?p], Throw (new_Error (''Mappings file not found: '' @ ?p)))"
    using assms by (rule loadMappings_missing)
  have run: "runCommand E cfg args =
              ((if verbose cfg then map ConsoleLog (configuration_lines cfg @ [[]]) else [])
               @ fst (getChangedFiles E (baseBranch cfg) (verbose cfg))
               @ [ExistsSync ?p,
                  ConsoleError (''[mapper] Error: Mappings file not found: '' @ ?p),
                  ConsoleError ''[mapper] Falling back to running all tests'',
                  Exec (playwright_command ''.*'' args)],
               snd (runPlaywright E ''.*'' args))"
    if "ExistsSync ?p \<in> set (fst (runCommand E cfg args))"
    using runCommand_reaches_load [OF that] runCommand_missing [of E cfg args] assms
    by blast
  have list: "listCommand E cfg =
              (map ConsoleLog (configuration_lines cfg)
               @ fst (getChangedFiles E (baseBranch cfg) True)
               @ [ConsoleLog [], ExistsSync ?p,
                  ConsoleError (''[mapper] Error: Mappings file not found: '' @ ?p)],
               Exit 1)"
    if "ExistsSync ?p \<in> set (fst (listCommand E cfg))"
    using listCommand_reaches_load [OF that] listCommand_missing [of E cfg] assms
    by blast
  have no_runner: "\<forall>g a. Exec (playwright_command g a) \<notin> set (fst (listCommand E cfg))"
    if "ExistsSync ?p \<in> set (fst (listCommand E cfg))"
    unfolding list [OF that] by (auto simp: getChangedFiles_no_runner)
  from load run list no_runner show ?thesis by blast
qed

theorem missing_mappings_file_witness:
  "runCommand example_env (example_config ''main'') []
     = ([Exec ''git rev-parse --abbrev-ref HEAD'',
         Exec ''git diff --name-only main...HEAD'',
         ExistsSync ''/repo/test-mappings.js'',
         ConsoleError ''[mapper] Error: Mappings file not found: /repo/test-mappings.js'',
         ConsoleError ''[mapper] Falling back to running all tests'',
         Exec (playwright_command ''.*'' [])], Return 2)
   \<and> ExistsSync ''/repo/test-mappings.js''
       \<in> set (fst (listCommand example_env (example_config ''main'')))
   \<and> ConsoleError ''[mapper] Error: Mappings file not found: /repo/test-mappings.js''
       \<in> set (fst (listCommand example_env (example_config ''main'')))
   \<and> snd (listCommand example_env (example_config ''main'')) = Exit 1"
  using missing_mappings_file [of example_env "example_config ''main''" "[]"]
  by (simp add: run_defs trim_examples [simplified])

end
